theory Spec2Isabelle
  imports Main
begin

section \<open>The binding layer of \<^verbatim>\<open>src/qpdf.cpp\<close>\<close>

text \<open>
  \<^verbatim>\<open>qpdf.cpp\<close> is a pybind11 module: it adapts Python arguments, forwards to the
  classes \<^verbatim>\<open>QPDF\<close> and \<^verbatim>\<open>QPDFWriter\<close> of libqpdf, and translates exceptions. The model
  follows that shape. A C++ exception is a value; a function that may throw returns the
  exception beside the calls it has made so far. Everything the binding does to the world
  outside it (a method call on the \<^verbatim>\<open>QPDF\<close> object or the writer, a call of a Python
  callable) is recorded, in order, as a \<open>call\<close>; what libqpdf answers to a call is a
  parameter of the model.
\<close>

subsection \<open>Exceptions\<close>

text \<open>
  The C++ exceptions that can leave the functions of the file. \<^verbatim>\<open>QPDFExc\<close> carries
  \<^verbatim>\<open>getErrorCode()\<close> and \<^verbatim>\<open>what()\<close>; the enumeration of error codes is declared in
  \<^verbatim>\<open>qpdf/Constants.h\<close>, so it is the type parameter \<open>'code\<close> here, and the one code the
  file names, \<^verbatim>\<open>qpdf_e_password\<close>, is a parameter of the translator below.
  \<open>error_already_set\<close> is a Python exception raised inside a Python callable (with the name
  of its class); \<open>std_exception\<close> is any other C++ exception.
\<close>

datatype 'code exception =
    QPDFExc 'code string
  | value_error string
  | type_error string
  | cast_error
  | error_already_set string
  | std_exception string

subsection \<open>Python objects, as far as the binding looks at them\<close>

text \<open>
  A positional argument is observed through \<^verbatim>\<open>hasattr\<close>, \<^verbatim>\<open>isinstance\<close>, the result of
  calling its \<^verbatim>\<open>read()\<close>, and the results of handing it to the helpers
  \<^verbatim>\<open>pikepdf._cpphelpers.fspath\<close> and \<^verbatim>\<open>pikepdf._cpphelpers.repair_pdfa\<close>. A call that
  raises gives \<open>Inl\<close> of the Python exception's class name; a call that returns gives
  \<open>Inr\<close> of the value's cast to the C++ type the binding asks for (\<open>None\<close> when pybind11
  refuses the cast).
\<close>

type_synonym bytes = string

record py_object =
  hasattr_read :: bool
  hasattr_seek :: bool
  isinstance_TextIOBase :: bool
  read_returns :: "string + bytes option"
  fspath_returns :: "string + string option"
  repair_pdfa_raises :: "string option"

text \<open>A keyword argument's value, as its casts to \<^verbatim>\<open>std::string\<close> and \<^verbatim>\<open>bool\<close> see it.\<close>

record py_value =
  cast_string :: "string option"
  cast_bool :: "bool option"

type_synonym kwargs = "string \<rightharpoonup> py_value"

subsection \<open>Calls that leave the binding\<close>

text \<open>
  Modelled from the spec: the enumeration \<^verbatim>\<open>qpdf_stream_data_e\<close> of \<^verbatim>\<open>qpdf/Constants.h\<close>
  is not among the sources; the spec's writer has three stream data modes (payloads
  forcibly decompressed, left as they are, or re-compressed).
\<close>

datatype qpdf_stream_data_e = qpdf_s_uncompress | qpdf_s_preserve | qpdf_s_compress

datatype call =
    QPDF_new
  | setSuppressWarnings bool
  | setIgnoreXRefStreams bool
  | setAttemptRecovery bool
  | stream_read
  | processMemoryFile string bytes string
  | fspath
  | processFile string string
  | QPDFWriter_new string
  | setStaticID bool
  | setStreamDataMode qpdf_stream_data_e
  | writer_write
  | repair_pdfa

text \<open>
  libqpdf, seen from the binding: given the calls made so far, the last of them a call
  into the library, the exception that call throws, or \<open>None\<close> when it returns. It is
  asked about the calls that do work (\<^verbatim>\<open>processFile\<close>, \<^verbatim>\<open>processMemoryFile\<close>, the
  constructor of the writer and \<^verbatim>\<open>write\<close>); the constructor of \<^verbatim>\<open>QPDF\<close> and the setters
  are taken to return.
\<close>

type_synonym 'code libqpdf = "call list \<Rightarrow> 'code exception option"

definition invoke :: "'code libqpdf \<Rightarrow> call list \<Rightarrow> call \<Rightarrow> call list \<times> 'code exception option" where
  "invoke lib q c = (q @ [c], lib (q @ [c]))"

text \<open>\<^verbatim>\<open>std::string::c_str()\<close>: the receiver reads up to the first NUL.\<close>

definition c_str :: "string \<Rightarrow> string" where
  "c_str s = takeWhile (\<lambda>c. c \<noteq> CHR 0x00) s"

subsection \<open>\<^verbatim>\<open>kwargs_to_method\<close>, \<^verbatim>\<open>fsencode_filename\<close>\<close>

text \<open>
  \<^verbatim>\<open>kwargs_to_method(kwargs, key, q, callback)\<close>: when the key is present, cast its value
  and call the setter on \<open>q\<close>; a failed cast is rethrown as a \<^verbatim>\<open>type_error\<close>. \<open>q\<close> is the
  list of calls made so far.
\<close>

definition kwargs_to_method ::
  "kwargs \<Rightarrow> string \<Rightarrow> call list \<Rightarrow> (bool \<Rightarrow> call) \<Rightarrow> call list \<times> 'code exception option" where
  "kwargs_to_method kwargs key q callback =
     (case kwargs key of
        None \<Rightarrow> (q, None)
      | Some v \<Rightarrow>
          (case cast_bool v of
             None \<Rightarrow> (q, Some (type_error (key @ '': unsupported argument type'')))
           | Some b \<Rightarrow> (q @ [callback b], None)))"

text \<open>
  \<^verbatim>\<open>fsencode_filename\<close>: call the helper \<^verbatim>\<open>fspath\<close> and cast its result to
  \<^verbatim>\<open>std::string\<close>; only a failed cast is caught and becomes a \<^verbatim>\<open>type_error\<close>, an
  exception raised by the helper itself propagates.
\<close>

definition fsencode_filename :: "py_object \<Rightarrow> 'code exception + string" where
  "fsencode_filename py_filename =
     (case fspath_returns py_filename of
        Inl pyexc \<Rightarrow> Inl (error_already_set pyexc)
      | Inr None \<Rightarrow> Inl (type_error ''expected pathlike object'')
      | Inr (Some filename) \<Rightarrow> Inr filename)"

subsection \<open>\<^verbatim>\<open>open_pdf\<close>\<close>

text \<open>
  The keyword block of \<^verbatim>\<open>open_pdf\<close> (lines 73 to 81): the password, then the three
  setters in the order of the source. The cast of the password is outside any
  \<^verbatim>\<open>try\<close>, so its \<^verbatim>\<open>cast_error\<close> propagates as it is. \<open>None\<close> for the keyword
  dictionary is the null handle that \<^verbatim>\<open>if (kwargs)\<close> tests for.
\<close>

definition open_pdf_kwargs ::
  "call list \<Rightarrow> kwargs option \<Rightarrow> call list \<times> ('code exception + string)" where
  "open_pdf_kwargs q kwargs =
     (case kwargs of
        None \<Rightarrow> (q, Inr [])
      | Some kw \<Rightarrow>
          (case (case kw ''password'' of
                   None \<Rightarrow> Some []
                 | Some v \<Rightarrow> cast_string v) of
             None \<Rightarrow> (q, Inl cast_error)
           | Some password \<Rightarrow>
               (case kwargs_to_method kw ''ignore_xref_streams'' q setIgnoreXRefStreams of
                  (q1, Some e) \<Rightarrow> (q1, Inl e)
                | (q1, None) \<Rightarrow>
                    (case kwargs_to_method kw ''suppress_warnings'' q1 setSuppressWarnings of
                       (q2, Some e) \<Rightarrow> (q2, Inl e)
                     | (q2, None) \<Rightarrow>
                         (case kwargs_to_method kw ''attempt_recovery'' q2 setAttemptRecovery of
                            (q3, Some e) \<Rightarrow> (q3, Inl e)
                          | (q3, None) \<Rightarrow> (q3, Inr password))))))"

text \<open>
  \<^verbatim>\<open>open_pdf(args, kwargs)\<close>. The result is the list of calls made and the exception
  thrown; \<open>None\<close> is the normal return of the \<^verbatim>\<open>QPDF\<close> object those calls have built.
\<close>

definition open_pdf ::
  "'code libqpdf \<Rightarrow> py_object list \<Rightarrow> kwargs option \<Rightarrow> call list \<times> 'code exception option" where
  "open_pdf lib args kwargs =
     (let q = [QPDF_new] in
      if length args < 1 then (q, Some (value_error ''not enough arguments''))
      else if length args > 2 then (q, Some (value_error ''too many arguments''))
      else
        (case open_pdf_kwargs (q @ [setSuppressWarnings True]) kwargs of
           (q, Inl e) \<Rightarrow> (q, Some e)
         | (q, Inr password) \<Rightarrow>
             if hasattr_read (args ! 0) \<and> hasattr_seek (args ! 0) then
               (let stream = args ! 0 in
                if isinstance_TextIOBase stream then
                  (q, Some (type_error ''stream must be binary, readable and seekable''))
                else
                  (case read_returns stream of
                     Inl pyexc \<Rightarrow> (q @ [stream_read], Some (error_already_set pyexc))
                   | Inr None \<Rightarrow> (q @ [stream_read], Some cast_error)
                   | Inr (Some data) \<Rightarrow>
                       invoke lib (q @ [stream_read])
                         (processMemoryFile ''memory'' data (c_str password))))
             else
               (case fsencode_filename (args ! 0) of
                  Inl e \<Rightarrow> (q @ [fspath], Some e)
                | Inr filename \<Rightarrow>
                    invoke lib (q @ [fspath])
                      (processFile (c_str filename) (c_str password)))))"

text \<open>The calls that read a stream, resolve a path or hand input to libqpdf.\<close>

fun touches_input :: "call \<Rightarrow> bool" where
  "touches_input stream_read = True"
| "touches_input (processMemoryFile d b p) = True"
| "touches_input fspath = True"
| "touches_input (processFile f p) = True"
| "touches_input c = False"

text \<open>The two calls that hand a document to libqpdf.\<close>

fun is_process :: "call \<Rightarrow> bool" where
  "is_process (processMemoryFile d b p) = True"
| "is_process (processFile f p) = True"
| "is_process c = False"

subsection \<open>The exception translator\<close>

text \<open>
  The module registers two Python exception classes, \<^verbatim>\<open>PDFError\<close> (\<^verbatim>\<open>exc_main\<close>) and
  \<^verbatim>\<open>PasswordError\<close> (\<^verbatim>\<open>exc_password\<close>), and one translator (lines 123 to 135). Given
  the exception pointer \<open>p\<close>, the translator rethrows it and catches \<^verbatim>\<open>QPDFExc\<close> only:
  it raises one of the two classes with \<^verbatim>\<open>e.what()\<close>. Any other exception leaves the
  translator as it came (\<open>passed_on\<close>: pybind11 tries its remaining translators); a null
  pointer does nothing.
\<close>

datatype py_exception = PDFError string | PasswordError string

datatype translation = raised py_exception | passed_on | nothing_thrown

definition exception_translator :: "'code \<Rightarrow> 'code exception option \<Rightarrow> translation" where
  "exception_translator qpdf_e_password p =
     (case p of
        None \<Rightarrow> nothing_thrown
      | Some (QPDFExc code what) \<Rightarrow>
          if code = qpdf_e_password then raised (PasswordError what)
          else raised (PDFError what)
      | Some e \<Rightarrow> passed_on)"

text \<open>
  \<^verbatim>\<open>PDF.open\<close> as Python sees it: \<^verbatim>\<open>open_pdf\<close> behind the translator.
\<close>

definition PDF_open ::
  "'code \<Rightarrow> 'code libqpdf \<Rightarrow> py_object list \<Rightarrow> kwargs option \<Rightarrow> translation" where
  "PDF_open qpdf_e_password lib args kwargs =
     exception_translator qpdf_e_password (snd (open_pdf lib args kwargs))"

subsection \<open>\<^verbatim>\<open>save\<close>\<close>

text \<open>
  The lambda bound as \<^verbatim>\<open>save\<close> (lines 193 to 214). \<open>q\<close> is the document, as the calls
  made on it so far. The writer is constructed on the encoded file name; with
  \<open>static_id\<close> the two setters are called; then \<^verbatim>\<open>write()\<close>; with \<open>preserve_pdfa\<close> the
  Python helper \<^verbatim>\<open>repair_pdfa\<close> is called on the file name object afterwards.
\<close>

definition save ::
  "'code libqpdf \<Rightarrow> call list \<Rightarrow> py_object \<Rightarrow> bool \<Rightarrow> bool \<Rightarrow> call list \<times> 'code exception option" where
  "save lib q filename static_id preserve_pdfa =
     (case fsencode_filename filename of
        Inl e \<Rightarrow> (q @ [fspath], Some e)
      | Inr name \<Rightarrow>
          (case invoke lib (q @ [fspath]) (QPDFWriter_new (c_str name)) of
             (w, Some e) \<Rightarrow> (w, Some e)
           | (w, None) \<Rightarrow>
               (case invoke lib
                       (if static_id
                        then w @ [setStaticID True, setStreamDataMode qpdf_s_uncompress]
                        else w)
                       writer_write of
                  (w, Some e) \<Rightarrow> (w, Some e)
                | (w, None) \<Rightarrow>
                    if preserve_pdfa then
                      (case repair_pdfa_raises filename of
                         Some r \<Rightarrow> (w @ [repair_pdfa], Some (error_already_set r))
                       | None \<Rightarrow> (w @ [repair_pdfa], None))
                    else (w, None))))"

text \<open>
  The Python signature: \<^verbatim>\<open>filename\<close>, and the two flags with their declared default
  \<^verbatim>\<open>false\<close> (\<open>None\<close>: the caller left the argument out).
\<close>

definition PDF_save ::
  "'code libqpdf \<Rightarrow> call list \<Rightarrow> py_object \<Rightarrow> bool option \<Rightarrow> bool option
   \<Rightarrow> call list \<times> 'code exception option" where
  "PDF_save lib q filename static_id preserve_pdfa =
     save lib q filename
       (case static_id of None \<Rightarrow> False | Some b \<Rightarrow> b)
       (case preserve_pdfa of None \<Rightarrow> False | Some b \<Rightarrow> b)"

text \<open>The calls that set the writer's stream data mode.\<close>

fun sets_stream_data_mode :: "call \<Rightarrow> bool" where
  "sets_stream_data_mode (setStreamDataMode m) = True"
| "sets_stream_data_mode c = False"

subsection \<open>Example inputs\<close>

text \<open>
  A text-mode stream (its \<^verbatim>\<open>read()\<close> returns \<^verbatim>\<open>str\<close>, which does not cast to bytes, and
  \<^verbatim>\<open>fspath\<close> rejects it), a path-like object, a keyword dictionary that holds a password
  only, one whose password is a \<^verbatim>\<open>bool\<close> and not a string, and a libqpdf that accepts
  every call.
\<close>

definition text_stream :: py_object where
  "text_stream =
     \<lparr>hasattr_read = True, hasattr_seek = True, isinstance_TextIOBase = True,
      read_returns = Inr None, fspath_returns = Inl ''TypeError'',
      repair_pdfa_raises = None\<rparr>"

definition path_object :: py_object where
  "path_object =
     \<lparr>hasattr_read = False, hasattr_seek = False, isinstance_TextIOBase = False,
      read_returns = Inl ''AttributeError'', fspath_returns = Inr (Some ''in.pdf''),
      repair_pdfa_raises = None\<rparr>"

definition password_only :: kwargs where
  "password_only = [''password'' \<mapsto> \<lparr>cast_string = Some ''pw'', cast_bool = None\<rparr>]"

definition not_a_password :: kwargs where
  "not_a_password = [''password'' \<mapsto> \<lparr>cast_string = None, cast_bool = Some True\<rparr>]"

definition libqpdf_accepts :: "nat libqpdf" where
  "libqpdf_accepts calls = None"

text \<open>
  A binary stream, the keyword dictionary with the right password, and two more
  libraries, with numbers for error codes (the examples take 4 for \<^verbatim>\<open>qpdf_e_password\<close>
  and 5 for another code): one that holds an encrypted document and throws the password
  error on every password but \<^verbatim>\<open>secret\<close>, and one that finds every document damaged.
\<close>

definition binary_stream :: py_object where
  "binary_stream =
     \<lparr>hasattr_read = True, hasattr_seek = True, isinstance_TextIOBase = False,
      read_returns = Inr (Some ''%PDF-1.7''), fspath_returns = Inl ''TypeError'',
      repair_pdfa_raises = None\<rparr>"

definition right_password :: kwargs where
  "right_password = [''password'' \<mapsto> \<lparr>cast_string = Some ''secret'', cast_bool = None\<rparr>]"

fun wrong_password :: "call \<Rightarrow> bool" where
  "wrong_password (processMemoryFile d b p) = (p \<noteq> ''secret'')"
| "wrong_password (processFile f p) = (p \<noteq> ''secret'')"
| "wrong_password c = False"

definition libqpdf_encrypted :: "nat libqpdf" where
  "libqpdf_encrypted calls =
     (if calls \<noteq> [] \<and> wrong_password (last calls)
      then Some (QPDFExc 4 ''invalid password'') else None)"

definition libqpdf_damaged :: "nat libqpdf" where
  "libqpdf_damaged calls =
     (if calls \<noteq> [] \<and> is_process (last calls)
      then Some (QPDFExc 5 ''damaged PDF'') else None)"

section \<open>The engine behind the binding\<close>

text \<open>
  \<^verbatim>\<open>pages\<close> and \<^verbatim>\<open>get_warnings\<close> are bound directly to \<^verbatim>\<open>QPDF::getAllPages\<close> and
  \<^verbatim>\<open>QPDF::getWarnings\<close>, which live in libqpdf and not in the sources. What is said about
  them is checked against the design the spec gives for the engine: the data model of its
  section 3, the operations of its section 4.4 and the warnings channel of its section 6.
\<close>

subsection \<open>Data model\<close>

text \<open>
  Modelled from the spec: \<^verbatim>\<open>ObjectId\<close> is the pair of object number and generation;
  \<^verbatim>\<open>ObjectValue\<close> is the tagged union of the spec's section 3 (a real number is kept as
  its decimal text, a dictionary as its key/value entries, a stream as its dictionary, its
  raw payload and its cached decoded payload).
\<close>

type_synonym ObjectId = "nat \<times> nat"

datatype ObjectValue =
    Null
  | Boolean bool
  | Integer int
  | Real string
  | String bytes
  | Name string
  | Array "ObjectValue list"
  | Dictionary "(string \<times> ObjectValue) list"
  | Stream "(string \<times> ObjectValue) list" bytes "bytes option"
  | IndirectReference ObjectId

text \<open>
  Modelled from the spec: the \<^verbatim>\<open>Document\<close> as the arena of the spec's section 9 (a flat
  table from \<^verbatim>\<open>ObjectId\<close> to \<^verbatim>\<open>ObjectValue\<close>), the trailer dictionary, and the
  non-fatal diagnostics accumulated so far (section 6). The table is a list, so it is
  finite. The side table of cross-reference entries, the encryption parameters and the
  counter of object ids play no part in what follows and are left out.
\<close>

record Document =
  objects :: "(ObjectId \<times> ObjectValue) list"
  trailer :: "(string \<times> ObjectValue) list"
  warnings :: "string list"

text \<open>
  Modelled from the spec: dereferencing is total, an id without an entry resolves to
  \<^verbatim>\<open>Null\<close> (sections 4.4 and 9).
\<close>

definition get_object :: "Document \<Rightarrow> ObjectId \<Rightarrow> ObjectValue" where
  "get_object d i = (case map_of (objects d) i of None \<Rightarrow> Null | Some v \<Rightarrow> v)"

text \<open>
  Modelled from the spec: an indirect reference is a link resolved through the
  document's object table (section 3); any other value stands for itself.
\<close>

definition resolve :: "Document \<Rightarrow> ObjectValue \<Rightarrow> ObjectValue" where
  "resolve d v = (case v of IndirectReference i \<Rightarrow> get_object d i | _ \<Rightarrow> v)"

text \<open>Modelled from the spec: the value under a key of a dictionary, \<^verbatim>\<open>Null\<close> when absent.\<close>

definition dict_get :: "ObjectValue \<Rightarrow> string \<Rightarrow> ObjectValue" where
  "dict_get v key =
     (case v of
        Dictionary entries \<Rightarrow> (case map_of entries key of None \<Rightarrow> Null | Some x \<Rightarrow> x)
      | _ \<Rightarrow> Null)"

subsection \<open>The page tree\<close>

text \<open>
  Modelled from the spec: an intermediate node of the page tree is a dictionary with
  \<^verbatim>\<open>/Type /Pages\<close> (section 4.4).
\<close>

definition is_pages_node :: "Document \<Rightarrow> ObjectId \<Rightarrow> bool" where
  "is_pages_node d n = (dict_get (get_object d n) ''Type'' = Name ''Pages'')"

text \<open>Modelled from the spec: a page is a dictionary with \<^verbatim>\<open>/Type /Page\<close> (section 4.4).\<close>

definition is_page :: "Document \<Rightarrow> ObjectId \<Rightarrow> bool" where
  "is_page d n = (dict_get (get_object d n) ''Type'' = Name ''Page'')"

text \<open>
  Modelled from the spec: links between objects are \<^verbatim>\<open>ObjectId\<close>-valued (section 9), so
  the nodes an array names are the ids of its indirect references, in order; an entry
  that is not a reference names no node.
\<close>

fun references :: "ObjectValue list \<Rightarrow> ObjectId list" where
  "references [] = []"
| "references (IndirectReference i # vs) = i # references vs"
| "references (v # vs) = references vs"

text \<open>
  Modelled from the spec: the children of an intermediate node are the nodes its
  \<^verbatim>\<open>/Kids\<close> array names; any other node has none.
\<close>

definition kids :: "Document \<Rightarrow> ObjectId \<Rightarrow> ObjectId list" where
  "kids d n =
     (if is_pages_node d n then
        (case resolve d (dict_get (get_object d n) ''Kids'') of
           Array vs \<Rightarrow> references vs
         | _ \<Rightarrow> [])
      else [])"

text \<open>
  Modelled from the spec: the walk starts at \<^verbatim>\<open>/Root/Pages\<close>, the node that the
  \<^verbatim>\<open>/Pages\<close> entry of the trailer's \<^verbatim>\<open>/Root\<close> dictionary refers to.
\<close>

definition pages_root :: "Document \<Rightarrow> ObjectId option" where
  "pages_root d =
     (case map_of (trailer d) ''Root'' of
        None \<Rightarrow> None
      | Some root \<Rightarrow>
          (case dict_get (resolve d root) ''Pages'' of
             IndirectReference i \<Rightarrow> Some i
           | _ \<Rightarrow> None))"

text \<open>
  Modelled from the spec: \<^verbatim>\<open>all_pages\<close> is a depth-first walk of the tree in document
  order that never visits a node twice (section 4.4). \<open>walk d visited stack\<close> takes the
  nodes still to visit from the stack, skips one that was visited before, and otherwise
  visits it and pushes its children. It returns the nodes in the order of their visits.
\<close>

function walk :: "Document \<Rightarrow> ObjectId list \<Rightarrow> ObjectId list \<Rightarrow> ObjectId list" where
  "walk d visited [] = []"
| "walk d visited (n # stack) =
     (if n \<in> set visited then walk d visited stack
      else n # walk d (n # visited) (kids d n @ stack))"
  by pat_completeness auto

lemma kids_in_table: "n \<notin> fst ` set (objects d) \<Longrightarrow> kids d n = []"
proof -
  assume "n \<notin> fst ` set (objects d)"
  then have "map_of (objects d) n = None" by (simp add: map_of_eq_None_iff)
  then show ?thesis by (simp add: kids_def is_pages_node_def get_object_def dict_get_def)
qed

lemma unvisited_decreases:
  "n \<in> fst ` set (objects d) \<Longrightarrow> n \<notin> set visited \<Longrightarrow>
   card (fst ` set (objects d) - set (n # visited)) < card (fst ` set (objects d) - set visited)"
  by (intro psubset_card_mono) auto

text \<open>
  The walk terminates on every document: a visit of a node of the table leaves fewer
  unvisited nodes in the table, and every other step shortens the stack.
\<close>

termination walk
proof (relation "measures [\<lambda>(d, visited, stack). card (fst ` set (objects d) - set visited),
                            \<lambda>(d, visited, stack). length stack]", goal_cases)
  case 1
  show ?case by simp
next
  case 2
  then show ?case by simp
next
  case (3 d visited n stack)
  show ?case
  proof (cases "n \<in> fst ` set (objects d)")
    case True
    with 3 unvisited_decreases [of n d visited] show ?thesis by simp
  next
    case False
    then have "fst ` set (objects d) - set (n # visited) = fst ` set (objects d) - set visited"
      by auto
    with False show ?thesis by (simp add: kids_in_table)
  qed
qed

text \<open>
  Modelled from the spec: the page list is derived by the walk from \<^verbatim>\<open>/Root/Pages\<close>,
  with the intermediate nodes flattened away; a document without a page tree has no pages.
\<close>

definition all_pages :: "Document \<Rightarrow> ObjectId list" where
  "all_pages d =
     (case pages_root d of
        None \<Rightarrow> []
      | Some r \<Rightarrow> filter (is_page d) (walk d [] [r]))"

text \<open>The edges of the page tree, and the pages that can be reached from its root.\<close>

definition kid_edges :: "Document \<Rightarrow> (ObjectId \<times> ObjectId) set" where
  "kid_edges d = {(n, k). k \<in> set (kids d n)}"

definition reachable_page :: "Document \<Rightarrow> ObjectId \<Rightarrow> bool" where
  "reachable_page d p =
     (\<exists>r. pages_root d = Some r \<and> (r, p) \<in> (kid_edges d)\<^sup>* \<and> is_page d p)"

subsection \<open>The warnings channel\<close>

text \<open>
  Modelled from the spec: the engine accumulates non-fatal diagnostics while it parses;
  they are collected, never thrown (sections 6 and 7).
\<close>

definition warn :: "Document \<Rightarrow> string \<Rightarrow> Document" where
  "warn d w = d\<lparr>warnings := warnings d @ [w]\<rparr>"

text \<open>
  Modelled from the spec: the drain operation, \<^verbatim>\<open>QPDF::getWarnings\<close> behind
  \<^verbatim>\<open>get_warnings\<close>, returns the accumulated diagnostics and clears them (section 6).
\<close>

definition getWarnings :: "Document \<Rightarrow> string list \<times> Document" where
  "getWarnings d = (warnings d, d\<lparr>warnings := []\<rparr>)"

subsection \<open>Example documents\<close>

text \<open>
  A page tree with a cycle: the intermediate node 4 lists its ancestor 2 among its kids,
  and page 3 a second time.
\<close>

definition cyclic_tree :: Document where
  "cyclic_tree =
     \<lparr>objects =
        [((1, 0), Dictionary [(''Type'', Name ''Catalog''), (''Pages'', IndirectReference (2, 0))]),
         ((2, 0), Dictionary [(''Type'', Name ''Pages''),
                    (''Kids'', Array [IndirectReference (3, 0), IndirectReference (4, 0)])]),
         ((3, 0), Dictionary [(''Type'', Name ''Page'')]),
         ((4, 0), Dictionary [(''Type'', Name ''Pages''),
                    (''Kids'', Array [IndirectReference (2, 0), IndirectReference (5, 0),
                                      IndirectReference (3, 0)])]),
         ((5, 0), Dictionary [(''Type'', Name ''Page'')])],
      trailer = [(''Root'', IndirectReference (1, 0))],
      warnings = []\<rparr>"

section \<open>Facts about \<^verbatim>\<open>open_pdf\<close>\<close>

text \<open>The keyword block only appends setter calls, and it never throws a \<^verbatim>\<open>QPDFExc\<close>.\<close>

lemma open_pdf_kwargs_setters:
  "open_pdf_kwargs q kwargs = (q', r) \<Longrightarrow>
   \<exists>cs. q' = q @ cs \<and> filter touches_input cs = [] \<and> filter is_process cs = []"
  unfolding open_pdf_kwargs_def kwargs_to_method_def
  by (auto split: option.splits prod.splits)

lemma open_pdf_kwargs_QPDFExc:
  "open_pdf_kwargs q kwargs = (q', Inl e) \<Longrightarrow> e \<noteq> QPDFExc c m"
  unfolding open_pdf_kwargs_def kwargs_to_method_def
  by (auto split: option.splits prod.splits)

lemma open_pdf_kwargs_last:
  "open_pdf_kwargs (q @ [setSuppressWarnings True]) kwargs = (q', r) \<Longrightarrow>
   q' \<noteq> [] \<and> \<not> is_process (last q')"
  unfolding open_pdf_kwargs_def kwargs_to_method_def
  by (auto split: option.splits prod.splits)

text \<open>The keyword block returns normally exactly when every value that is given converts.\<close>

lemma open_pdf_kwargs_returns:
  "(\<exists>q' password. open_pdf_kwargs q kwargs = (q', Inr password)) =
   (case kwargs of
      None \<Rightarrow> True
    | Some kw \<Rightarrow>
        (case kw ''password'' of None \<Rightarrow> True | Some v \<Rightarrow> cast_string v \<noteq> None)
        \<and> (case kw ''ignore_xref_streams'' of None \<Rightarrow> True | Some v \<Rightarrow> cast_bool v \<noteq> None)
        \<and> (case kw ''suppress_warnings'' of None \<Rightarrow> True | Some v \<Rightarrow> cast_bool v \<noteq> None)
        \<and> (case kw ''attempt_recovery'' of None \<Rightarrow> True | Some v \<Rightarrow> cast_bool v \<noteq> None))"
  unfolding open_pdf_kwargs_def kwargs_to_method_def
  by (auto split: option.splits prod.splits)

text \<open>\<^verbatim>\<open>open_pdf\<close>, once the outcome of its keyword block is known.\<close>

lemma open_pdf_unfold:
  "open_pdf_kwargs [QPDF_new, setSuppressWarnings True] kwargs = (q, r) \<Longrightarrow>
   open_pdf lib args kwargs =
     (if length args < 1 then ([QPDF_new], Some (value_error ''not enough arguments''))
      else if length args > 2 then ([QPDF_new], Some (value_error ''too many arguments''))
      else (case r of
          Inl e \<Rightarrow> (q, Some e)
        | Inr password \<Rightarrow>
             if hasattr_read (args ! 0) \<and> hasattr_seek (args ! 0) then
                (if isinstance_TextIOBase (args ! 0) then
                  (q, Some (type_error ''stream must be binary, readable and seekable''))
                else
                  (case read_returns (args ! 0) of
                     Inl pyexc \<Rightarrow> (q @ [stream_read], Some (error_already_set pyexc))
                   | Inr None \<Rightarrow> (q @ [stream_read], Some cast_error)
                   | Inr (Some data) \<Rightarrow>
                       (q @ [stream_read, processMemoryFile ''memory'' data (c_str password)],
                        lib (q @ [stream_read, processMemoryFile ''memory'' data (c_str password)]))))
             else
               (case fspath_returns (args ! 0) of
                  Inl pyexc \<Rightarrow> (q @ [fspath], Some (error_already_set pyexc))
                | Inr None \<Rightarrow> (q @ [fspath], Some (type_error ''expected pathlike object''))
                | Inr (Some filename) \<Rightarrow>
                    (q @ [fspath, processFile (c_str filename) (c_str password)],
                     lib (q @ [fspath, processFile (c_str filename) (c_str password)])))))"
  by (simp add: open_pdf_def invoke_def fsencode_filename_def Let_def split: sum.splits option.splits)

text \<open>
  A \<^verbatim>\<open>QPDFExc\<close> leaves \<^verbatim>\<open>open_pdf\<close> exactly when its last call handed the document to
  libqpdf and libqpdf threw that exception.
\<close>

lemma open_pdf_QPDFExc:
  fixes lib :: "'c libqpdf"
  shows "(snd (open_pdf lib args kwargs) = Some (QPDFExc c m)) =
   (fst (open_pdf lib args kwargs) \<noteq> [] \<and> is_process (last (fst (open_pdf lib args kwargs)))
    \<and> lib (fst (open_pdf lib args kwargs)) = Some (QPDFExc c m))"
proof -
  obtain q and r :: "'c exception + string"
    where k: "open_pdf_kwargs [QPDF_new, setSuppressWarnings True] kwargs = (q, r)"
    by (cases "open_pdf_kwargs [QPDF_new, setSuppressWarnings True] kwargs
                 :: call list \<times> ('c exception + string)")
  from k have l: "q \<noteq> []" "\<not> is_process (last q)"
    using open_pdf_kwargs_last [of "[QPDF_new]" kwargs q r] by simp_all
  note u = open_pdf_unfold [OF k, of lib args]
  show ?thesis
  proof (cases "length args < 1 \<or> length args > 2")
    case True
    then show ?thesis unfolding u by auto
  next
    case False
    note n = this
    show ?thesis
    proof (cases r)
      case (Inl e)
      with k have "e \<noteq> QPDFExc c m"
        using open_pdf_kwargs_QPDFExc [of "[QPDF_new, setSuppressWarnings True]" kwargs q e c m]
        by simp
      moreover have "open_pdf lib args kwargs = (q, Some e)"
        using n Inl unfolding u by simp
      ultimately show ?thesis using l by simp
    next
      case (Inr password)
      show ?thesis
      proof (cases "hasattr_read (args ! 0) \<and> hasattr_seek (args ! 0)")
        case True
        show ?thesis
        proof (cases "isinstance_TextIOBase (args ! 0)")
          case t: True
          have "open_pdf lib args kwargs =
            (q, Some (type_error ''stream must be binary, readable and seekable''))"
            using n Inr True t unfolding u by simp
          then show ?thesis using l by simp
        next
          case f: False
          show ?thesis
          proof (cases "read_returns (args ! 0)")
            case (Inl pyexc)
            have "open_pdf lib args kwargs = (q @ [stream_read], Some (error_already_set pyexc))"
              using n Inr True f Inl unfolding u by simp
            then show ?thesis by simp
          next
            case d: (Inr data)
            show ?thesis
            proof (cases data)
              case None
              have "open_pdf lib args kwargs = (q @ [stream_read], Some cast_error)"
                using n Inr True f d None unfolding u by simp
              then show ?thesis by simp
            next
              case (Some b)
              have "open_pdf lib args kwargs =
                (q @ [stream_read, processMemoryFile ''memory'' b (c_str password)],
                 lib (q @ [stream_read, processMemoryFile ''memory'' b (c_str password)]))"
                using n Inr True f d Some unfolding u by simp
              then show ?thesis by simp
            qed
          qed
        qed
      next
        case False
        show ?thesis
        proof (cases "fspath_returns (args ! 0)")
          case (Inl pyexc)
          have "open_pdf lib args kwargs = (q @ [fspath], Some (error_already_set pyexc))"
            using n Inr False Inl unfolding u by auto
          then show ?thesis by simp
        next
          case d: (Inr name)
          show ?thesis
          proof (cases name)
            case None
            have "open_pdf lib args kwargs =
              (q @ [fspath], Some (type_error ''expected pathlike object''))"
              using n Inr False d None unfolding u by auto
            then show ?thesis by simp
          next
            case (Some f)
            have "open_pdf lib args kwargs =
              (q @ [fspath, processFile (c_str f) (c_str password)],
               lib (q @ [fspath, processFile (c_str f) (c_str password)]))"
              using n Inr False d Some unfolding u by auto
            then show ?thesis by simp
          qed
        qed
      qed
    qed
  qed
qed

text \<open>What the translator raises, read backwards.\<close>

lemma translator_password:
  "(exception_translator pw p = raised (PasswordError m)) = (p = Some (QPDFExc pw m))"
  by (auto simp: exception_translator_def split: option.splits exception.splits)

lemma translator_main:
  "(exception_translator pw p = raised (PDFError m)) = (\<exists>c. c \<noteq> pw \<and> p = Some (QPDFExc c m))"
  by (auto simp: exception_translator_def split: option.splits exception.splits)

lemma translator_passed_on:
  "(exception_translator pw p = passed_on) = (\<exists>e. p = Some e \<and> (\<forall>c m. e \<noteq> QPDFExc c m))"
  by (auto simp: exception_translator_def split: option.splits exception.splits)

lemma translator_nothing:
  "(exception_translator pw p = nothing_thrown) = (p = None)"
  by (auto simp: exception_translator_def split: option.splits exception.splits)

lemma translator_QPDFExc:
  "exception_translator pw (Some (QPDFExc c m))
     = (if c = pw then raised (PasswordError m) else raised (PDFError m))"
  by (simp add: exception_translator_def)

text \<open>
  A call that gets as far as libqpdf throws whatever libqpdf answers to the processing call,
  and returns when libqpdf does.
\<close>

lemma open_pdf_processFile:
  fixes lib :: "'c libqpdf"
  assumes "length args = 1 \<or> length args = 2"
      and k: "open_pdf_kwargs [QPDF_new, setSuppressWarnings True] kwargs
               = (q, Inr password :: 'c exception + string)"
      and "\<not> (hasattr_read (args ! 0) \<and> hasattr_seek (args ! 0))"
      and "fspath_returns (args ! 0) = Inr (Some filename)"
  shows "open_pdf lib args kwargs
           = (q @ [fspath, processFile (c_str filename) (c_str password)],
              lib (q @ [fspath, processFile (c_str filename) (c_str password)]))"
  using assms(1,3,4) unfolding open_pdf_unfold [OF k, of lib args] by auto

lemma open_pdf_processMemoryFile:
  fixes lib :: "'c libqpdf"
  assumes "length args = 1 \<or> length args = 2"
      and k: "open_pdf_kwargs [QPDF_new, setSuppressWarnings True] kwargs
               = (q, Inr password :: 'c exception + string)"
      and "hasattr_read (args ! 0) \<and> hasattr_seek (args ! 0)"
      and "\<not> isinstance_TextIOBase (args ! 0)"
      and "read_returns (args ! 0) = Inr (Some data)"
  shows "open_pdf lib args kwargs
           = (q @ [stream_read, processMemoryFile ''memory'' data (c_str password)],
              lib (q @ [stream_read, processMemoryFile ''memory'' data (c_str password)]))"
  using assms(1,3,4,5) unfolding open_pdf_unfold [OF k, of lib args] by auto

section \<open>The two failure categories of \<^verbatim>\<open>open\<close>\<close>

text \<open>
  As stated, C1 puts every failure of \<^verbatim>\<open>open\<close> that is not a failed password under
  \<^verbatim>\<open>PDFError\<close>. The translator of lines 125 to 135 catches \<^verbatim>\<open>QPDFExc\<close> and nothing else,
  and \<^verbatim>\<open>open_pdf\<close> throws exceptions of its own before libqpdf sees the document: on the
  encrypted document that rejects the password \<^verbatim>\<open>pw\<close>, a call whose password is not a
  string fails with a \<^verbatim>\<open>cast_error\<close>, a call on a text stream with a \<^verbatim>\<open>type_error\<close> and a
  call without positional arguments with a \<^verbatim>\<open>value_error\<close>. None of them is raised as
  \<^verbatim>\<open>PDFError\<close> or \<^verbatim>\<open>PasswordError\<close>: the translator passes them on.
\<close>

theorem open_failure_categories_counterexample:
  "libqpdf_encrypted [QPDF_new, setSuppressWarnings True, fspath, processFile ''in.pdf'' ''pw'']
     = Some (QPDFExc 4 ''invalid password'')
   \<and> open_pdf libqpdf_encrypted [path_object] (Some not_a_password)
       = ([QPDF_new, setSuppressWarnings True], Some cast_error)
   \<and> PDF_open 4 libqpdf_encrypted [path_object] (Some not_a_password) = passed_on
   \<and> open_pdf libqpdf_encrypted [text_stream] (Some password_only)
       = ([QPDF_new, setSuppressWarnings True],
          Some (type_error ''stream must be binary, readable and seekable''))
   \<and> PDF_open 4 libqpdf_encrypted [text_stream] (Some password_only) = passed_on
   \<and> open_pdf libqpdf_encrypted [] (Some password_only)
       = ([QPDF_new], Some (value_error ''not enough arguments''))
   \<and> PDF_open 4 libqpdf_encrypted [] (Some password_only) = passed_on"
  by (simp add: PDF_open_def exception_translator_def open_pdf_def open_pdf_kwargs_def
      kwargs_to_method_def libqpdf_encrypted_def text_stream_def path_object_def
      not_a_password_def password_only_def)

text \<open>
  C1, amended. Whenever \<^verbatim>\<open>open\<close> hands the document to libqpdf (one or two positional
  arguments, the keyword block returns, and the first argument is a path that encodes or
  a binary stream whose \<^verbatim>\<open>read()\<close> gives bytes) and libqpdf throws a \<^verbatim>\<open>QPDFExc\<close> from
  \<^verbatim>\<open>processFile\<close> or \<^verbatim>\<open>processMemoryFile\<close>, the call fails with \<^verbatim>\<open>PasswordError\<close> when the
  error code is \<^verbatim>\<open>qpdf_e_password\<close> and with \<^verbatim>\<open>PDFError\<close> for every other code, with the
  message \<^verbatim>\<open>what()\<close>. Conversely a failure of \<^verbatim>\<open>open\<close> is raised as \<^verbatim>\<open>PasswordError\<close> if
  and only if the exception behind it is a \<^verbatim>\<open>QPDFExc\<close> with the code
  \<^verbatim>\<open>qpdf_e_password\<close>, and as \<^verbatim>\<open>PDFError\<close> if and only if it is a \<^verbatim>\<open>QPDFExc\<close> with another
  code; a \<^verbatim>\<open>QPDFExc\<close> leaves \<^verbatim>\<open>open_pdf\<close> exactly when libqpdf threw it from the processing
  call. An exception that is not a \<^verbatim>\<open>QPDFExc\<close> is in neither category (the translator
  passes it on), and \<^verbatim>\<open>open\<close> raises nothing exactly when \<^verbatim>\<open>open_pdf\<close> returns.
\<close>

theorem open_password_error_iff:
  fixes lib :: "'c libqpdf"
  shows "((length args = 1 \<or> length args = 2)
          \<and> open_pdf_kwargs [QPDF_new, setSuppressWarnings True] kwargs
               = (q, Inr password :: 'c exception + string)
          \<and> \<not> (hasattr_read (args ! 0) \<and> hasattr_seek (args ! 0))
          \<and> fspath_returns (args ! 0) = Inr (Some filename)
          \<and> lib (q @ [fspath, processFile (c_str filename) (c_str password)])
               = Some (QPDFExc c m)
          \<longrightarrow> PDF_open qpdf_e_password lib args kwargs
                = (if c = qpdf_e_password then raised (PasswordError m)
                   else raised (PDFError m)))
   \<and> ((length args = 1 \<or> length args = 2)
          \<and> open_pdf_kwargs [QPDF_new, setSuppressWarnings True] kwargs
               = (q, Inr password :: 'c exception + string)
          \<and> hasattr_read (args ! 0) \<and> hasattr_seek (args ! 0)
          \<and> \<not> isinstance_TextIOBase (args ! 0)
          \<and> read_returns (args ! 0) = Inr (Some data)
          \<and> lib (q @ [stream_read, processMemoryFile ''memory'' data (c_str password)])
               = Some (QPDFExc c m)
          \<longrightarrow> PDF_open qpdf_e_password lib args kwargs
                = (if c = qpdf_e_password then raised (PasswordError m)
                   else raised (PDFError m)))
   \<and> (PDF_open qpdf_e_password lib args kwargs = raised (PasswordError m))
           = (snd (open_pdf lib args kwargs) = Some (QPDFExc qpdf_e_password m))
   \<and> (PDF_open qpdf_e_password lib args kwargs = raised (PDFError m))
           = (\<exists>c. c \<noteq> qpdf_e_password \<and> snd (open_pdf lib args kwargs) = Some (QPDFExc c m))
   \<and> (snd (open_pdf lib args kwargs) = Some (QPDFExc c m))
           = (fst (open_pdf lib args kwargs) \<noteq> []
              \<and> is_process (last (fst (open_pdf lib args kwargs)))
              \<and> lib (fst (open_pdf lib args kwargs)) = Some (QPDFExc c m))
   \<and> (PDF_open qpdf_e_password lib args kwargs = passed_on)
           = (\<exists>e. snd (open_pdf lib args kwargs) = Some e \<and> (\<forall>c m. e \<noteq> QPDFExc c m))
   \<and> (PDF_open qpdf_e_password lib args kwargs = nothing_thrown)
           = (snd (open_pdf lib args kwargs) = None)"
proof -
  have f: "(length args = 1 \<or> length args = 2)
          \<and> open_pdf_kwargs [QPDF_new, setSuppressWarnings True] kwargs
               = (q, Inr password :: 'c exception + string)
          \<and> \<not> (hasattr_read (args ! 0) \<and> hasattr_seek (args ! 0))
          \<and> fspath_returns (args ! 0) = Inr (Some filename)
          \<and> lib (q @ [fspath, processFile (c_str filename) (c_str password)])
               = Some (QPDFExc c m)
          \<longrightarrow> PDF_open qpdf_e_password lib args kwargs
                = (if c = qpdf_e_password then raised (PasswordError m)
                   else raised (PDFError m))"
  proof (intro impI, elim conjE)
    assume a: "length args = 1 \<or> length args = 2"
      "open_pdf_kwargs [QPDF_new, setSuppressWarnings True] kwargs
         = (q, Inr password :: 'c exception + string)"
      "\<not> (hasattr_read (args ! 0) \<and> hasattr_seek (args ! 0))"
      "fspath_returns (args ! 0) = Inr (Some filename)"
      and l: "lib (q @ [fspath, processFile (c_str filename) (c_str password)])
               = Some (QPDFExc c m)"
    from open_pdf_processFile [OF a, of lib] l
    have "snd (open_pdf lib args kwargs) = Some (QPDFExc c m)" by simp
    then show "PDF_open qpdf_e_password lib args kwargs
                = (if c = qpdf_e_password then raised (PasswordError m)
                   else raised (PDFError m))"
      by (simp only: PDF_open_def translator_QPDFExc)
  qed
  have s: "(length args = 1 \<or> length args = 2)
          \<and> open_pdf_kwargs [QPDF_new, setSuppressWarnings True] kwargs
               = (q, Inr password :: 'c exception + string)
          \<and> hasattr_read (args ! 0) \<and> hasattr_seek (args ! 0)
          \<and> \<not> isinstance_TextIOBase (args ! 0)
          \<and> read_returns (args ! 0) = Inr (Some data)
          \<and> lib (q @ [stream_read, processMemoryFile ''memory'' data (c_str password)])
               = Some (QPDFExc c m)
          \<longrightarrow> PDF_open qpdf_e_password lib args kwargs
                = (if c = qpdf_e_password then raised (PasswordError m)
                   else raised (PDFError m))"
  proof (intro impI, elim conjE)
    assume a: "length args = 1 \<or> length args = 2"
      "open_pdf_kwargs [QPDF_new, setSuppressWarnings True] kwargs
         = (q, Inr password :: 'c exception + string)"
      and h: "hasattr_read (args ! 0)" "hasattr_seek (args ! 0)"
      and b: "\<not> isinstance_TextIOBase (args ! 0)"
      "read_returns (args ! 0) = Inr (Some data)"
      and l: "lib (q @ [stream_read, processMemoryFile ''memory'' data (c_str password)])
               = Some (QPDFExc c m)"
    from h have h': "hasattr_read (args ! 0) \<and> hasattr_seek (args ! 0)" by simp
    from open_pdf_processMemoryFile [OF a h' b, of lib] l
    have "snd (open_pdf lib args kwargs) = Some (QPDFExc c m)" by simp
    then show "PDF_open qpdf_e_password lib args kwargs
                = (if c = qpdf_e_password then raised (PasswordError m)
                   else raised (PDFError m))"
      by (simp only: PDF_open_def translator_QPDFExc)
  qed
  have r: "(PDF_open qpdf_e_password lib args kwargs = raised (PasswordError m))
           = (snd (open_pdf lib args kwargs) = Some (QPDFExc qpdf_e_password m))
   \<and> (PDF_open qpdf_e_password lib args kwargs = raised (PDFError m))
           = (\<exists>c. c \<noteq> qpdf_e_password \<and> snd (open_pdf lib args kwargs) = Some (QPDFExc c m))
   \<and> (snd (open_pdf lib args kwargs) = Some (QPDFExc c m))
           = (fst (open_pdf lib args kwargs) \<noteq> []
              \<and> is_process (last (fst (open_pdf lib args kwargs)))
              \<and> lib (fst (open_pdf lib args kwargs)) = Some (QPDFExc c m))
   \<and> (PDF_open qpdf_e_password lib args kwargs = passed_on)
           = (\<exists>e. snd (open_pdf lib args kwargs) = Some e \<and> (\<forall>c m. e \<noteq> QPDFExc c m))
   \<and> (PDF_open qpdf_e_password lib args kwargs = nothing_thrown)
           = (snd (open_pdf lib args kwargs) = None)"
    unfolding PDF_open_def translator_password translator_main translator_passed_on
      translator_nothing
    using open_pdf_QPDFExc [of lib args kwargs c m] by simp
  from f s r show ?thesis by (intro conjI) (rule f, rule s, simp_all only: r)
qed


theorem open_password_error_iff_witness:
  "PDF_open 4 libqpdf_encrypted [path_object] (Some password_only)
     = raised (PasswordError ''invalid password'')
   \<and> PDF_open 4 libqpdf_encrypted [binary_stream] (Some password_only)
     = raised (PasswordError ''invalid password'')
   \<and> PDF_open 4 libqpdf_damaged [path_object] (Some password_only)
     = raised (PDFError ''damaged PDF'')
   \<and> PDF_open 4 libqpdf_encrypted [path_object] (Some right_password) = nothing_thrown"
proof -
  have n: "length [path_object] = 1 \<or> length [path_object] = 2"
    "length [binary_stream] = 1 \<or> length [binary_stream] = 2" by simp_all
  have k: "open_pdf_kwargs [QPDF_new, setSuppressWarnings True] (Some password_only)
              = ([QPDF_new, setSuppressWarnings True], Inr ''pw'' :: nat exception + string)"
    by (simp add: open_pdf_kwargs_def password_only_def kwargs_to_method_def)
  have p: "\<not> (hasattr_read ([path_object] ! 0) \<and> hasattr_seek ([path_object] ! 0))"
    "fspath_returns ([path_object] ! 0) = Inr (Some ''in.pdf'')"
    by (simp_all add: path_object_def)
  have b: "hasattr_read ([binary_stream] ! 0)" "hasattr_seek ([binary_stream] ! 0)"
    "\<not> isinstance_TextIOBase ([binary_stream] ! 0)"
    "read_returns ([binary_stream] ! 0) = Inr (Some ''%PDF-1.7'')"
    by (simp_all add: binary_stream_def)
  have c: "c_str ''in.pdf'' = ''in.pdf''" "c_str ''pw'' = ''pw''" by (simp_all add: c_str_def)
  have e1: "libqpdf_encrypted ([QPDF_new, setSuppressWarnings True]
              @ [fspath, processFile (c_str ''in.pdf'') (c_str ''pw'')])
            = Some (QPDFExc 4 ''invalid password'')"
    by (simp add: libqpdf_encrypted_def c)
  have e2: "libqpdf_encrypted ([QPDF_new, setSuppressWarnings True]
              @ [stream_read, processMemoryFile ''memory'' ''%PDF-1.7'' (c_str ''pw'')])
            = Some (QPDFExc 4 ''invalid password'')"
    by (simp add: libqpdf_encrypted_def c)
  have e3: "libqpdf_damaged ([QPDF_new, setSuppressWarnings True]
              @ [fspath, processFile (c_str ''in.pdf'') (c_str ''pw'')])
            = Some (QPDFExc 5 ''damaged PDF'')"
    by (simp add: libqpdf_damaged_def c)
  have 1: "PDF_open 4 libqpdf_encrypted [path_object] (Some password_only)
     = raised (PasswordError ''invalid password'')"
    using open_password_error_iff
      [of "[path_object]" "Some password_only" "[QPDF_new, setSuppressWarnings True]" "''pw''"
          "''in.pdf''" libqpdf_encrypted 4 "''invalid password''" 4]
      n k p e1 by simp
  have 2: "PDF_open 4 libqpdf_encrypted [binary_stream] (Some password_only)
     = raised (PasswordError ''invalid password'')"
    using open_password_error_iff
      [of "[binary_stream]" "Some password_only" "[QPDF_new, setSuppressWarnings True]" "''pw''"
          _ libqpdf_encrypted 4 "''invalid password''" 4 "''%PDF-1.7''"]
      n k b e2 by simp
  have 3: "PDF_open 4 libqpdf_damaged [path_object] (Some password_only)
     = raised (PDFError ''damaged PDF'')"
    using open_password_error_iff
      [of "[path_object]" "Some password_only" "[QPDF_new, setSuppressWarnings True]" "''pw''"
          "''in.pdf''" libqpdf_damaged 5 "''damaged PDF''" 4]
      n k p e3 by simp
  have 4: "PDF_open 4 libqpdf_encrypted [path_object] (Some right_password) = nothing_thrown"
    by (simp add: PDF_open_def exception_translator_def open_pdf_def open_pdf_kwargs_def
        kwargs_to_method_def libqpdf_encrypted_def path_object_def right_password_def
        fsencode_filename_def invoke_def c_str_def)
  from 1 2 3 4 show ?thesis by simp
qed

section \<open>Argument count of \<^verbatim>\<open>open\<close>\<close>

text \<open>
  C9. With no positional argument \<^verbatim>\<open>open\<close> throws the value error
  \<^verbatim>\<open>not enough arguments\<close>, with more than two the value error \<^verbatim>\<open>too many arguments\<close>;
  in both cases the only thing done before is the construction of the empty \<^verbatim>\<open>QPDF\<close>
  object: no stream is read, no path resolved and nothing is given to libqpdf to process,
  whatever the keyword arguments are.
\<close>

theorem open_pdf_argument_count:
  "open_pdf lib [] kwargs = ([QPDF_new], Some (value_error ''not enough arguments''))
   \<and> open_pdf lib (a # b # c # others) kwargs = ([QPDF_new], Some (value_error ''too many arguments''))
   \<and> filter touches_input (fst (open_pdf lib [] kwargs)) = []
   \<and> filter touches_input (fst (open_pdf lib (a # b # c # others) kwargs)) = []"
  by (simp add: open_pdf_def)


section \<open>Text streams and paths\<close>

text \<open>
  As stated, C10 speaks of every call whose first argument is a text stream. The checks
  of the argument count and of the keyword arguments come first, whatever the first
  argument is: a call with three positional arguments fails with the value error
  \<^verbatim>\<open>too many arguments\<close>, and a call whose password is not a string fails with the
  \<^verbatim>\<open>cast_error\<close> of the cast.
\<close>

theorem open_pdf_text_stream_counterexample:
  "hasattr_read text_stream \<and> hasattr_seek text_stream \<and> isinstance_TextIOBase text_stream
   \<and> open_pdf libqpdf_accepts [text_stream, path_object, path_object] None
       = ([QPDF_new], Some (value_error ''too many arguments''))
   \<and> snd (open_pdf libqpdf_accepts [text_stream, path_object, path_object] None)
       \<noteq> Some (type_error ''stream must be binary, readable and seekable'')
   \<and> open_pdf libqpdf_accepts [text_stream] (Some not_a_password)
       = ([QPDF_new, setSuppressWarnings True], Some cast_error)"
  by (simp add: open_pdf_def open_pdf_kwargs_def text_stream_def not_a_password_def)

text \<open>
  C10, amended. For a call with one or two positional arguments whose keyword block
  returns normally (with the calls \<open>q\<close> made and the password): if the first argument has
  \<^verbatim>\<open>read\<close> and \<^verbatim>\<open>seek\<close> and is an instance of \<^verbatim>\<open>io.TextIOBase\<close>, \<^verbatim>\<open>open\<close> throws the type
  error \<^verbatim>\<open>stream must be binary, readable and seekable\<close>, and no call so far has read the
  stream, resolved a path or handed input to libqpdf; if the first argument lacks
  \<^verbatim>\<open>read\<close> or \<^verbatim>\<open>seek\<close>, it is treated as a path: it goes to \<^verbatim>\<open>fsencode_filename\<close>, whose
  failure is thrown and whose result is the file name given to \<^verbatim>\<open>processFile\<close>.
\<close>

theorem open_pdf_text_stream_or_path:
  fixes lib :: "'c libqpdf"
  assumes n: "length args = 1 \<or> length args = 2"
      and k: "open_pdf_kwargs [QPDF_new, setSuppressWarnings True] kwargs
               = (q, Inr password :: 'c exception + string)"
  shows "(hasattr_read (args ! 0) \<and> hasattr_seek (args ! 0) \<and> isinstance_TextIOBase (args ! 0) \<longrightarrow>
            open_pdf lib args kwargs
              = (q, Some (type_error ''stream must be binary, readable and seekable''))
            \<and> filter touches_input q = [])
       \<and> (\<not> (hasattr_read (args ! 0) \<and> hasattr_seek (args ! 0)) \<longrightarrow>
            open_pdf lib args kwargs
              = (case fsencode_filename (args ! 0) of
                   Inl e \<Rightarrow> (q @ [fspath], Some e)
                 | Inr filename \<Rightarrow>
                     invoke lib (q @ [fspath]) (processFile (c_str filename) (c_str password)))
            \<and> filter touches_input q = [])"
proof -
  from open_pdf_kwargs_setters [OF k] have t: "filter touches_input q = []" by auto
  from n have a: "\<not> length args < 1" "\<not> length args > 2" by auto
  show ?thesis
    using a t unfolding open_pdf_unfold [OF k, of lib args]
    by (auto simp: fsencode_filename_def invoke_def split: sum.splits option.splits)
qed

theorem open_pdf_text_stream_or_path_witness:
  "open_pdf libqpdf_accepts [text_stream] None
     = ([QPDF_new, setSuppressWarnings True],
        Some (type_error ''stream must be binary, readable and seekable''))
   \<and> open_pdf libqpdf_accepts [path_object, text_stream] (Some password_only)
     = ([QPDF_new, setSuppressWarnings True, fspath, processFile ''in.pdf'' ''pw''], None)"
proof -
  have k1: "open_pdf_kwargs [QPDF_new, setSuppressWarnings True] None
              = ([QPDF_new, setSuppressWarnings True], Inr [] :: nat exception + string)"
    by (simp add: open_pdf_kwargs_def)
  have k2: "open_pdf_kwargs [QPDF_new, setSuppressWarnings True] (Some password_only)
              = ([QPDF_new, setSuppressWarnings True], Inr ''pw'' :: nat exception + string)"
    by (simp add: open_pdf_kwargs_def password_only_def kwargs_to_method_def)
  have n1: "length [text_stream] = 1 \<or> length [text_stream] = 2" by simp
  have n2: "length [path_object, text_stream] = 1 \<or> length [path_object, text_stream] = 2"
    by simp
  from open_pdf_text_stream_or_path [OF n1 k1, of libqpdf_accepts]
       open_pdf_text_stream_or_path [OF n2 k2, of libqpdf_accepts]
  show ?thesis
    by (simp add: text_stream_def path_object_def fsencode_filename_def invoke_def
        libqpdf_accepts_def c_str_def)
qed

section \<open>\<^verbatim>\<open>save\<close> and the stream data mode\<close>

text \<open>
  C8. \<^verbatim>\<open>save\<close> takes the file name and the two flags \<open>static_id\<close> and \<open>preserve_pdfa\<close>, and
  nothing that names a stream data mode. Once the writer is constructed (the file name
  encodes and the constructor returns), the calls are: with \<open>static_id\<close>,
  \<^verbatim>\<open>setStaticID(true)\<close> and \<^verbatim>\<open>setStreamDataMode(qpdf_s_uncompress)\<close> and then \<^verbatim>\<open>write()\<close>;
  without it, \<^verbatim>\<open>write()\<close> at once, on the writer as its constructor left it. Whatever
  happens, a save without \<open>static_id\<close> (given as false or left out) never sets the stream
  data mode, and a save with it never sets a mode other than \<^verbatim>\<open>qpdf_s_uncompress\<close>.
\<close>

theorem save_static_id_forces_uncompress:
  fixes lib :: "'c libqpdf"
  shows "(fsencode_filename filename = (Inr name :: 'c exception + string)
          \<and> lib (q @ [fspath, QPDFWriter_new (c_str name)]) = None \<longrightarrow>
          (\<exists>rest. fst (save lib q filename static_id preserve_pdfa)
                    = q @ [fspath, QPDFWriter_new (c_str name)]
                        @ (if static_id
                           then [setStaticID True, setStreamDataMode qpdf_s_uncompress]
                           else [])
                        @ [writer_write] @ rest
                  \<and> (rest = [] \<or> rest = [repair_pdfa])))
   \<and> filter sets_stream_data_mode
        (drop (length q) (fst (save lib q filename False preserve_pdfa))) = []
   \<and> set (filter sets_stream_data_mode
             (drop (length q) (fst (save lib q filename True preserve_pdfa))))
        \<subseteq> {setStreamDataMode qpdf_s_uncompress}
   \<and> PDF_save lib q filename None pa
        = save lib q filename False (case pa of None \<Rightarrow> False | Some b \<Rightarrow> b)"
  by (auto simp: save_def PDF_save_def invoke_def split: sum.splits option.splits)

theorem save_static_id_forces_uncompress_witness:
  "fst (save libqpdf_accepts [] path_object True False)
     = [fspath, QPDFWriter_new ''in.pdf'', setStaticID True,
        setStreamDataMode qpdf_s_uncompress, writer_write]
   \<and> fst (save libqpdf_accepts [] path_object False False)
     = [fspath, QPDFWriter_new ''in.pdf'', writer_write]"
proof -
  have f: "fsencode_filename path_object = (Inr ''in.pdf'' :: nat exception + string)"
    by (simp add: fsencode_filename_def path_object_def)
  have c: "c_str ''in.pdf'' = ''in.pdf''" by (simp add: c_str_def)
  have l: "libqpdf_accepts ([] @ [fspath, QPDFWriter_new (c_str ''in.pdf'')]) = None"
    by (simp add: libqpdf_accepts_def)
  from save_static_id_forces_uncompress
         [of path_object "''in.pdf''" libqpdf_accepts "[]" True False] f l c
  have 1: "fst (save libqpdf_accepts [] path_object True False)
     = [fspath, QPDFWriter_new ''in.pdf'', setStaticID True,
        setStreamDataMode qpdf_s_uncompress, writer_write]"
    by (auto simp: save_def invoke_def libqpdf_accepts_def path_object_def)
  from save_static_id_forces_uncompress
         [of path_object "''in.pdf''" libqpdf_accepts "[]" False False] f l c
  have 2: "fst (save libqpdf_accepts [] path_object False False)
     = [fspath, QPDFWriter_new ''in.pdf'', writer_write]"
    by (auto simp: save_def invoke_def libqpdf_accepts_def path_object_def)
  from 1 2 show ?thesis by simp
qed

section \<open>The page walk\<close>

lemma walk_fresh: "set (walk d visited stack) \<inter> set visited = {}"
  by (induction d visited stack rule: walk.induct) auto

lemma walk_distinct: "distinct (walk d visited stack)"
proof (induction d visited stack rule: walk.induct)
  case (1 d visited)
  show ?case by simp
next
  case (2 d visited n stack)
  show ?case
  proof (cases "n \<in> set visited")
    case True
    with 2 show ?thesis by simp
  next
    case False
    moreover have "n \<notin> set (walk d (n # visited) (kids d n @ stack))"
      using walk_fresh [of d "n # visited" "kids d n @ stack"] by auto
    ultimately show ?thesis using 2 by simp
  qed
qed

lemma walk_covers_stack: "set stack \<subseteq> set visited \<union> set (walk d visited stack)"
  by (induction d visited stack rule: walk.induct) auto

text \<open>The kids of a node the walk visits are visited too, now or before.\<close>

lemma walk_closed:
  "n \<in> set (walk d visited stack) \<Longrightarrow>
   set (kids d n) \<subseteq> set visited \<union> set (walk d visited stack)"
proof (induction d visited stack arbitrary: n rule: walk.induct)
  case (1 d visited)
  then show ?case by simp
next
  case (2 d visited m stack)
  show ?case
  proof (cases "m \<in> set visited")
    case True
    with 2 show ?thesis by simp
  next
    case False
    let ?rest = "walk d (m # visited) (kids d m @ stack)"
    from False have w: "walk d visited (m # stack) = m # ?rest" by simp
    show ?thesis
    proof (cases "n = m")
      case True
      have "set (kids d m @ stack) \<subseteq> set (m # visited) \<union> set ?rest"
        by (rule walk_covers_stack)
      with True w show ?thesis by auto
    next
      case neq: False
      with "2.prems" w have "n \<in> set ?rest" by simp
      with "2.IH"(2) [OF False] have "set (kids d n) \<subseteq> set (m # visited) \<union> set ?rest" .
      with w show ?thesis by auto
    qed
  qed
qed

text \<open>Every node the walk visits is reached from a node of the stack.\<close>

lemma walk_sound:
  "n \<in> set (walk d visited stack) \<Longrightarrow> \<exists>s \<in> set stack. (s, n) \<in> (kid_edges d)\<^sup>*"
proof (induction d visited stack arbitrary: n rule: walk.induct)
  case (1 d visited)
  then show ?case by simp
next
  case (2 d visited m stack)
  show ?case
  proof (cases "m \<in> set visited")
    case True
    with 2 show ?thesis by auto
  next
    case False
    let ?rest = "walk d (m # visited) (kids d m @ stack)"
    from False have w: "walk d visited (m # stack) = m # ?rest" by simp
    show ?thesis
    proof (cases "n = m")
      case True
      then show ?thesis by auto
    next
      case neq: False
      with "2.prems" w have "n \<in> set ?rest" by simp
      with "2.IH"(2) [OF False] obtain s
        where s: "s \<in> set (kids d m @ stack)" "(s, n) \<in> (kid_edges d)\<^sup>*" by blast
      show ?thesis
      proof (cases "s \<in> set stack")
        case True
        with s show ?thesis by auto
      next
        case False
        with s have "(m, s) \<in> kid_edges d" by (simp add: kid_edges_def)
        with s have "(m, n) \<in> (kid_edges d)\<^sup>*" by (meson converse_rtrancl_into_rtrancl)
        then show ?thesis by auto
      qed
    qed
  qed
qed

lemma walk_complete:
  assumes "(r, n) \<in> (kid_edges d)\<^sup>*"
  shows "n \<in> set (walk d [] [r])"
  using assms
proof (induction rule: rtrancl_induct)
  case base
  show ?case by simp
next
  case (step y z)
  then have "z \<in> set (kids d y)" by (simp add: kid_edges_def)
  with walk_closed [OF step.IH] show ?case by auto
qed

lemma walk_reaches: "set (walk d [] [r]) = {n. (r, n) \<in> (kid_edges d)\<^sup>*}"
  using walk_complete [of r _ d] walk_sound [of _ d "[]" "[r]"] by auto

lemma count_list_distinct:
  "distinct xs \<Longrightarrow> count_list xs x = (if x \<in> set xs then 1 else 0)"
  by (induction xs) auto

text \<open>
  C5. On every document, one with a cycle among its \<^verbatim>\<open>/Kids\<close> included, the page
  enumeration returns (the walk is a total function: its termination is proved above) and
  lists every page that can be reached from the root of the page tree exactly once, and
  nothing else; the walk behind it visits no node twice, and visits exactly the nodes that
  can be reached from where it starts.
\<close>

theorem all_pages_each_page_once:
  "distinct (all_pages d)
   \<and> count_list (all_pages d) p = (if reachable_page d p then 1 else 0)
   \<and> distinct (walk d [] [r])
   \<and> set (walk d [] [r]) = {n. (r, n) \<in> (kid_edges d)\<^sup>*}"
proof -
  have d: "distinct (all_pages d)"
    by (simp add: all_pages_def walk_distinct del: walk.simps split: option.splits)
  have s: "p \<in> set (all_pages d) \<longleftrightarrow> reachable_page d p"
  proof (cases "pages_root d")
    case None
    then show ?thesis by (simp add: all_pages_def reachable_page_def)
  next
    case (Some r)
    then show ?thesis
      by (simp add: all_pages_def reachable_page_def walk_reaches del: walk.simps)
  qed
  from d s have "count_list (all_pages d) p = (if reachable_page d p then 1 else 0)"
    by (simp add: count_list_distinct)
  with d show ?thesis by (simp add: walk_distinct walk_reaches del: walk.simps)
qed

text \<open>The walk on the tree with a cycle.\<close>

lemma cyclic_tree_kids:
  "kids cyclic_tree (2, 0) = [(3, 0), (4, 0)]"
  "kids cyclic_tree (4, 0) = [(2, 0), (5, 0), (3, 0)]"
  "kids cyclic_tree (3, 0) = []"
  "kids cyclic_tree (5, 0) = []"
  by (simp_all add: kids_def is_pages_node_def get_object_def dict_get_def resolve_def
      cyclic_tree_def)

theorem all_pages_each_page_once_witness:
  "((2, 0), (4, 0)) \<in> kid_edges cyclic_tree \<and> ((4, 0), (2, 0)) \<in> kid_edges cyclic_tree
   \<and> all_pages cyclic_tree = [(3, 0), (5, 0)]
   \<and> count_list (all_pages cyclic_tree) (5, 0) = 1
   \<and> walk cyclic_tree [] [(2, 0)] = [(2, 0), (3, 0), (4, 0), (5, 0)]"
proof -
  have e: "((2, 0), (4, 0)) \<in> kid_edges cyclic_tree" "((4, 0), (2, 0)) \<in> kid_edges cyclic_tree"
    "((4, 0), (5, 0)) \<in> kid_edges cyclic_tree"
    by (simp_all add: kid_edges_def cyclic_tree_kids)
  have r: "pages_root cyclic_tree = Some (2, 0)"
    by (simp add: pages_root_def cyclic_tree_def resolve_def get_object_def dict_get_def)
  have p: "is_page cyclic_tree (5, 0)" "is_page cyclic_tree (3, 0)"
    "\<not> is_page cyclic_tree (2, 0)" "\<not> is_page cyclic_tree (4, 0)"
    by (simp_all add: is_page_def cyclic_tree_def get_object_def dict_get_def)
  from e have "((2, 0), (5, 0)) \<in> (kid_edges cyclic_tree)\<^sup>*" by (meson r_into_rtrancl rtrancl_trans)
  with r p have "reachable_page cyclic_tree (5, 0)" by (simp add: reachable_page_def)
  with all_pages_each_page_once [of cyclic_tree "(5, 0)" "(2, 0)"]
  have c: "count_list (all_pages cyclic_tree) (5, 0) = 1" by simp
  have w: "walk cyclic_tree [] [(2, 0)] = [(2, 0), (3, 0), (4, 0), (5, 0)]"
    by (simp add: cyclic_tree_kids)
  with r p have "all_pages cyclic_tree = [(3, 0), (5, 0)]" by (simp add: all_pages_def)
  with e c w show ?thesis by simp
qed

section \<open>Draining the warnings\<close>

lemma warnings_foldl_warn: "warnings (foldl warn d ws) = warnings d @ ws"
  by (induction ws arbitrary: d) (simp_all add: warn_def)

text \<open>
  C7. \<^verbatim>\<open>get_warnings\<close> returns the diagnostics accumulated so far, in the order they were
  raised, and leaves none behind: a second call right after it returns the empty list.
  The rest of the document is untouched.
\<close>

theorem getWarnings_returns_and_clears:
  "fst (getWarnings d) = warnings d
   \<and> fst (getWarnings (foldl warn d ws)) = warnings d @ ws
   \<and> warnings (snd (getWarnings d)) = []
   \<and> fst (getWarnings (snd (getWarnings d))) = []
   \<and> objects (snd (getWarnings d)) = objects d
   \<and> trailer (snd (getWarnings d)) = trailer d"
  by (simp add: getWarnings_def warnings_foldl_warn)

end
